theory Spec2Isabelle
  imports Main
begin

section \<open>Python values used by the extractor\<close>

text \<open>
  Texts are \<^typ>\<open>string\<close>: lists of characters with code points below 256, one character
  per code point, so that \<^const>\<open>length\<close> is Python's \<^verbatim>\<open>len\<close> on them.

  \<^verbatim>\<open>str.strip()\<close> without argument removes the characters for which
  \<^verbatim>\<open>str.isspace()\<close> holds. Below 256 these are TAB, LF, VT, FF, CR, the four
  separators FS, GS, RS, US, the space, NEL (0x85) and the no-break space (0xA0).
\<close>

definition isspace :: "char \<Rightarrow> bool" where
  "isspace c \<longleftrightarrow>
     c \<in> set [CHR 0x09, CHR ''\<newline>'', CHR 0x0B, CHR 0x0C, CHR 0x0D,
              CHR 0x1C, CHR 0x1D, CHR 0x1E, CHR 0x1F, CHR '' '', CHR 0x85, CHR 0xA0]"

definition str_strip :: "string \<Rightarrow> string" where
  "str_strip s = rev (dropWhile isspace (rev (dropWhile isspace s)))"

text \<open>\<^verbatim>\<open>s.split(c)\<close> for a one-character separator: never an empty list.\<close>

fun str_split :: "char \<Rightarrow> string \<Rightarrow> string list" where
  "str_split c [] = [[]]"
| "str_split c (x # xs) =
     (if x = c then [] # str_split c xs
      else (x # hd (str_split c xs)) # tl (str_split c xs))"

text \<open>\<^verbatim>\<open>sep.join(parts)\<close>.\<close>

fun str_join :: "string \<Rightarrow> string list \<Rightarrow> string" where
  "str_join sep [] = []"
| "str_join sep [x] = x"
| "str_join sep (x # y # ys) = x @ sep @ str_join sep (y # ys)"

text \<open>
  Truth value of an \<^verbatim>\<open>Optional\<close> string or list in a condition: \<^verbatim>\<open>None\<close> and
  the empty sequence are false.
\<close>

definition truthy :: "'a list option \<Rightarrow> bool" where
  "truthy v = (case v of None \<Rightarrow> False | Some xs \<Rightarrow> xs \<noteq> [])"

text \<open>
  An exception is a value. Every failure of a library call is an instance of
  \<^verbatim>\<open>Exception\<close>, which is what the handlers of the source catch.
\<close>

datatype exn = Exception string

type_synonym 'a result = "exn + 'a"


section \<open>Log records\<close>

text \<open>
  Each call of the \<^verbatim>\<open>logging\<close> module is recorded with its level and the values its
  message is formatted from (where the source formats \<^verbatim>\<open>pdf_path.name\<close> the event
  carries the path). Records are kept oldest first.
\<close>

datatype level = INFO | WARNING | ERROR

datatype event =
    Tesseract_path_missing
  | Poppler_path_missing
  | Extractor_initialized
  | Supports_digital
  | Supports_scanned
  | File_not_found string
  | Processing_pdf string string
  | Text_extraction_completed string nat
  | Error_extracting_text string exn
  | Processing_tables string string
  | Digital_table_extraction nat
  | Table_extraction_warning
  | Scanned_pdf_detected
  | Return_empty_list
  | Error_extracting_tables string exn
  | Detection_warning string exn
  | Page_characters nat nat
  | OCR_page_characters nat nat
  | OCR_failed string exn
  | Table_extracted nat nat nat

type_synonym log_entry = "level \<times> event"


section \<open>Documents as the libraries present them\<close>

text \<open>
  A candidate table of the layout engine is a list of rows; a row may be \<^verbatim>\<open>None\<close>,
  and so may a cell. A cleaned table has strings only.
\<close>

type_synonym raw_row = "string option list option"
type_synonym raw_table = "raw_row list"
type_synonym table = "string list list"

text \<open>
  A page of an opened document is given by what its two methods answer:
  \<^verbatim>\<open>page.extract_text()\<close> and \<^verbatim>\<open>page.extract_tables()\<close>, each of which may raise.
\<close>

record page =
  page_text :: "string option result"
  page_tables :: "raw_table list option result"

text \<open>
  A rasterized page is given by what lines 161 to 165 of the source yield on it
  (conversion to an array, grey scale, Otsu threshold, \<^verbatim>\<open>image_to_string\<close>): the
  recognized text, or the exception one of the four calls raised.
\<close>

type_synonym image = "string result"

text \<open>
  What a path leads to: a regular file, a directory, nothing, or a failure of the
  \<^verbatim>\<open>stat\<close> call that \<^verbatim>\<open>Path.exists()\<close> does not absorb (a name longer than the
  file system allows, a directory that may not be searched). \<^verbatim>\<open>Path.exists()\<close>
  answers \<^verbatim>\<open>True\<close> for a file and for a directory, \<^verbatim>\<open>False\<close> for nothing, and
  raises the \<^verbatim>\<open>OSError\<close> in the last case.
\<close>

datatype target = Regular_file | Directory | Nothing | Stat_error exn

fun path_exists :: "target \<Rightarrow> bool result" where
  "path_exists Regular_file = Inr True"
| "path_exists Directory = Inr True"
| "path_exists Nothing = Inr False"
| "path_exists (Stat_error e) = Inl e"

text \<open>
  What the environment answers for one path during one public call: what the path
  leads to, \<^verbatim>\<open>pdfplumber.open\<close> with \<^verbatim>\<open>pdf.pages\<close> inside \<^verbatim>\<open>_detect_pdf_type\<close>,
  the same inside the digital extraction that follows (the document is opened a second
  time, and nothing forces the two answers to agree), and \<^verbatim>\<open>convert_from_path\<close>.
\<close>

record world =
  target :: target
  opened_for_detect :: "page list result"
  opened_for_extract :: "page list result"
  images_from_path :: "image list result"

text \<open>
  The instance: the attributes \<^verbatim>\<open>_extraction_mode\<close> and \<^verbatim>\<open>poppler_path\<close>,
  together with the log records emitted so far.
\<close>

record pdf_extractor =
  extraction_mode :: string
  poppler_path :: string
  logged :: "log_entry list"


section \<open>The extractor\<close>

text \<open>
  \<^verbatim>\<open>__init__\<close>: the first two arguments say whether the two default tool paths exist.
\<close>

definition init :: "bool \<Rightarrow> bool \<Rightarrow> string option \<Rightarrow> string option \<Rightarrow> pdf_extractor" where
  "init default_tesseract_exists default_poppler_exists tesseract_path poppler_path_arg =
     \<lparr>extraction_mode = ''unknown'',
      poppler_path = (if truthy poppler_path_arg then the poppler_path_arg
                      else ''YOUR POPPLER PATH''),
      logged =
        (if truthy tesseract_path \<or> default_tesseract_exists then []
         else [(WARNING, Tesseract_path_missing)]) @
        (if truthy poppler_path_arg \<or> default_poppler_exists then []
         else [(WARNING, Poppler_path_missing)]) @
        [(INFO, Extractor_initialized), (INFO, Supports_digital), (INFO, Supports_scanned)]\<rparr>"

definition get_extraction_mode :: "pdf_extractor \<Rightarrow> string" where
  "get_extraction_mode self = extraction_mode self"

text \<open>
  \<^verbatim>\<open>_detect_pdf_type\<close>: the whole body is inside \<^verbatim>\<open>try\<close>, and the handler
  returns \<^verbatim>\<open>'scanned'\<close>. The result is the type and the records logged.
\<close>

definition detect_pdf_type :: "page list result \<Rightarrow> string \<Rightarrow> string \<times> log_entry list" where
  "detect_pdf_type opened pdf_path =
     (case opened of
        Inl e \<Rightarrow> (''scanned'', [(WARNING, Detection_warning pdf_path e)])
      | Inr pages \<Rightarrow>
          (case pages of
             [] \<Rightarrow> (''scanned'', [])
           | first_page # _ \<Rightarrow>
               (case page_text first_page of
                  Inl e \<Rightarrow> (''scanned'', [(WARNING, Detection_warning pdf_path e)])
                | Inr text \<Rightarrow>
                    if truthy text \<and> length (str_strip (the text)) > 50
                    then (''digital'', [])
                    else (''scanned'', []))))"

text \<open>
  \<^verbatim>\<open>_extract_text_digital\<close>: the loop over the pages, with the page number, the
  list \<^verbatim>\<open>all_text\<close> and the records logged so far. An exception leaves the loop.
\<close>

fun text_pages_loop ::
  "nat \<Rightarrow> page list \<Rightarrow> string list \<Rightarrow> log_entry list \<Rightarrow> string list result \<times> log_entry list" where
  "text_pages_loop page_num [] all_text lg = (Inr all_text, lg)"
| "text_pages_loop page_num (page # rest) all_text lg =
     (case page_text page of
        Inl e \<Rightarrow> (Inl e, lg)
      | Inr text \<Rightarrow>
          text_pages_loop (page_num + 1) rest
            (if truthy text then all_text @ [the text] else all_text)
            (lg @ [(INFO, Page_characters (page_num + 1)
                            (if truthy text then length (the text) else 0))]))"

definition extract_text_digital :: "page list result \<Rightarrow> string result \<times> log_entry list" where
  "extract_text_digital opened =
     (case opened of
        Inl e \<Rightarrow> (Inl e, [])
      | Inr pages \<Rightarrow>
          (case text_pages_loop 0 pages [] [] of
             (Inl e, lg) \<Rightarrow> (Inl e, lg)
           | (Inr all_text, lg) \<Rightarrow> (Inr (str_join ''\<newline>'' all_text), lg)))"

text \<open>
  \<^verbatim>\<open>_extract_text_scanned\<close>: lines 167 and 168 clean the recognized text of a page;
  the loop appends one text for every image; the handler around the whole body
  returns the fallback string.
\<close>

definition clean_lines :: "string \<Rightarrow> string" where
  "clean_lines text =
     str_join ''\<newline>''
       (map str_strip (filter (\<lambda>line. str_strip line \<noteq> []) (str_split CHR ''\<newline>'' text)))"

fun ocr_loop ::
  "nat \<Rightarrow> image list \<Rightarrow> string list \<Rightarrow> log_entry list \<Rightarrow> string list result \<times> log_entry list" where
  "ocr_loop page_num [] all_text lg = (Inr all_text, lg)"
| "ocr_loop page_num (img # rest) all_text lg =
     (case img of
        Inl e \<Rightarrow> (Inl e, lg)
      | Inr text \<Rightarrow>
          ocr_loop (page_num + 1) rest
            (all_text @ [clean_lines text])
            (lg @ [(INFO, OCR_page_characters (page_num + 1) (length (clean_lines text)))]))"

definition extract_text_scanned :: "image list result \<Rightarrow> string \<Rightarrow> string \<times> log_entry list" where
  "extract_text_scanned images pdf_path =
     (case images of
        Inl e \<Rightarrow>
          (''OCR Functionaliy Not Available On This Platform'', [(ERROR, OCR_failed pdf_path e)])
      | Inr imgs \<Rightarrow>
          (case ocr_loop 0 imgs [] [] of
             (Inl e, lg) \<Rightarrow>
               (''OCR Functionaliy Not Available On This Platform'',
                lg @ [(ERROR, OCR_failed pdf_path e)])
           | (Inr all_text, lg) \<Rightarrow> (str_join ''\<newline>\<newline>'' all_text, lg)))"

text \<open>
  \<^verbatim>\<open>_extract_tables_digital\<close>: the comprehension of line 188, the loop over the rows
  of a table, the loop over the tables of a page and the loop over the pages.
\<close>

definition clean_row :: "string option list \<Rightarrow> string list" where
  "clean_row row = map (\<lambda>cell. if truthy cell then str_strip (the cell) else []) row"

fun rows_loop :: "raw_row list \<Rightarrow> table \<Rightarrow> table" where
  "rows_loop [] cleaned_table = cleaned_table"
| "rows_loop (row # rest) cleaned_table =
     rows_loop rest
       (if truthy row then cleaned_table @ [clean_row (the row)] else cleaned_table)"

fun tables_loop ::
  "nat \<Rightarrow> nat \<Rightarrow> raw_table list \<Rightarrow> table list \<Rightarrow> log_entry list \<Rightarrow> table list \<times> log_entry list" where
  "tables_loop page_num table_num [] all_tables lg = (all_tables, lg)"
| "tables_loop page_num table_num (tbl # rest) all_tables lg =
     (let cleaned_table = rows_loop tbl []
      in if cleaned_table \<noteq> []
         then tables_loop page_num (table_num + 1) rest
                (all_tables @ [cleaned_table])
                (lg @ [(INFO, Table_extracted (page_num + 1) (table_num + 1)
                                (length cleaned_table))])
         else tables_loop page_num (table_num + 1) rest all_tables lg)"

fun table_pages_loop ::
  "nat \<Rightarrow> page list \<Rightarrow> table list \<Rightarrow> log_entry list \<Rightarrow> table list result \<times> log_entry list" where
  "table_pages_loop page_num [] all_tables lg = (Inr all_tables, lg)"
| "table_pages_loop page_num (page # rest) all_tables lg =
     (case page_tables page of
        Inl e \<Rightarrow> (Inl e, lg)
      | Inr tables \<Rightarrow>
          if truthy tables
          then (case tables_loop page_num 0 (the tables) all_tables lg of
                  (all_tables', lg') \<Rightarrow> table_pages_loop (page_num + 1) rest all_tables' lg')
          else table_pages_loop (page_num + 1) rest all_tables lg)"

definition extract_tables_digital :: "page list result \<Rightarrow> table list result \<times> log_entry list" where
  "extract_tables_digital opened =
     (case opened of
        Inl e \<Rightarrow> (Inl e, [])
      | Inr pages \<Rightarrow> table_pages_loop 0 pages [] [])"

text \<open>
  \<^verbatim>\<open>extract_text\<close>. The \<^verbatim>\<open>try\<close> block of lines 70 to 80 is \<open>extract_text_try\<close>;
  line 71 stores \<^verbatim>\<open>pdf_path\<close> in \<^verbatim>\<open>_extraction_mode\<close>. The handler of lines 82 to
  84 turns an exception of the block into the empty string. The call of
  \<^verbatim>\<open>exists()\<close> in line 65 is before the \<^verbatim>\<open>try\<close>: an exception it raises leaves
  the method.
\<close>

definition extract_text_try :: "world \<Rightarrow> pdf_extractor \<Rightarrow> string \<Rightarrow> string result \<times> pdf_extractor" where
  "extract_text_try w self pdf_path =
     (case detect_pdf_type (opened_for_detect w) pdf_path of
        (pdf_type, lg0) \<Rightarrow>
          (let self1 = self\<lparr>logged := logged self @ lg0\<rparr>;
               self2 = self1\<lparr>extraction_mode := pdf_path\<rparr>;
               self3 = self2\<lparr>logged := logged self2 @ [(INFO, Processing_pdf pdf_type pdf_path)]\<rparr>
           in case (if pdf_type = ''digital''
                    then extract_text_digital (opened_for_extract w)
                    else (case extract_text_scanned (images_from_path w) pdf_path of
                            (text, lg) \<Rightarrow> (Inr text, lg))) of
                (Inl e, lg) \<Rightarrow> (Inl e, self3\<lparr>logged := logged self3 @ lg\<rparr>)
              | (Inr text, lg) \<Rightarrow>
                  (Inr text,
                   self3\<lparr>logged := logged self3 @ lg @
                            [(INFO, Text_extraction_completed pdf_type (length text))]\<rparr>)))"

definition extract_text :: "world \<Rightarrow> pdf_extractor \<Rightarrow> string \<Rightarrow> string result \<times> pdf_extractor" where
  "extract_text w self pdf_path =
     (case path_exists (target w) of
        Inl e \<Rightarrow> (Inl e, self)
      | Inr found \<Rightarrow>
          if \<not> found
          then (Inr [], self\<lparr>logged := logged self @ [(ERROR, File_not_found pdf_path)]\<rparr>)
          else (case extract_text_try w self pdf_path of
                  (Inl e, self') \<Rightarrow>
                    (Inr [],
                     self'\<lparr>logged := logged self' @ [(ERROR, Error_extracting_text pdf_path e)]\<rparr>)
                | (Inr text, self') \<Rightarrow> (Inr text, self')))"

text \<open>
  \<^verbatim>\<open>extract_tables\<close>, in the same way; line 106 stores \<^verbatim>\<open>pdf_type\<close>, and the
  call of \<^verbatim>\<open>exists()\<close> in line 100 is before the \<^verbatim>\<open>try\<close> of line 104.
\<close>

definition extract_tables_try ::
  "world \<Rightarrow> pdf_extractor \<Rightarrow> string \<Rightarrow> table list result \<times> pdf_extractor" where
  "extract_tables_try w self pdf_path =
     (case detect_pdf_type (opened_for_detect w) pdf_path of
        (pdf_type, lg0) \<Rightarrow>
          (let self1 = self\<lparr>logged := logged self @ lg0\<rparr>;
               self2 = self1\<lparr>extraction_mode := pdf_type\<rparr>;
               self3 = self2\<lparr>logged := logged self2 @ [(INFO, Processing_tables pdf_type pdf_path)]\<rparr>
           in if pdf_type = ''digital''
              then (case extract_tables_digital (opened_for_extract w) of
                      (Inl e, lg) \<Rightarrow> (Inl e, self3\<lparr>logged := logged self3 @ lg\<rparr>)
                    | (Inr tables, lg) \<Rightarrow>
                        (Inr tables,
                         self3\<lparr>logged := logged self3 @ lg @
                                  [(INFO, Digital_table_extraction (length tables))]\<rparr>))
              else (Inr [],
                    self3\<lparr>logged := logged self3 @
                             [(WARNING, Table_extraction_warning),
                              (WARNING, Scanned_pdf_detected),
                              (WARNING, Return_empty_list)]\<rparr>)))"

definition extract_tables ::
  "world \<Rightarrow> pdf_extractor \<Rightarrow> string \<Rightarrow> table list result \<times> pdf_extractor" where
  "extract_tables w self pdf_path =
     (case path_exists (target w) of
        Inl e \<Rightarrow> (Inl e, self)
      | Inr found \<Rightarrow>
          if \<not> found
          then (Inr [], self\<lparr>logged := logged self @ [(ERROR, File_not_found pdf_path)]\<rparr>)
          else (case extract_tables_try w self pdf_path of
                  (Inl e, self') \<Rightarrow>
                    (Inr [],
                     self'\<lparr>logged := logged self' @ [(ERROR, Error_extracting_tables pdf_path e)]\<rparr>)
                | (Inr tables, self') \<Rightarrow> (Inr tables, self')))"


section \<open>Vocabulary of the properties\<close>

text \<open>A string has surrounding whitespace when its first or its last character is one.\<close>

definition has_surrounding_space :: "string \<Rightarrow> bool" where
  "has_surrounding_space s \<longleftrightarrow> s \<noteq> [] \<and> (isspace (hd s) \<or> isspace (last s))"


section \<open>Fixtures\<close>

text \<open>
  A three-page digital document (an invoice page with two candidate tables, a page
  without text layer, a page with a short text), a scanned document of three images,
  the same document with a recognition failure, a path that does not exist, a digital
  document whose second page cannot be read during extraction, a name of 256 characters
  (longer than a file name may be, so that \<^verbatim>\<open>stat\<close> fails), a directory, a digital
  document whose only candidate table has one row of two \<^verbatim>\<open>None\<close> cells, and an
  extractor as constructed without tool paths.
\<close>

definition invoice_text :: string where
  "invoice_text = ''  Invoice No: INV-2024-0042 issued to ACME Corporation Ltd, 12/03/2024  ''"

definition invoice_page :: page where
  "invoice_page =
     \<lparr>page_text = Inr (Some invoice_text),
      page_tables = Inr (Some
        [[Some [Some '' Item '', None, Some ''Qty''], None, Some [],
          Some [Some ''A4 paper'', Some '' 2 '', None]],
         [None, Some []]])\<rparr>"

definition blank_page :: page where
  "blank_page = \<lparr>page_text = Inr None, page_tables = Inr None\<rparr>"

definition totals_page :: page where
  "totals_page = \<lparr>page_text = Inr (Some ''Total: 12''), page_tables = Inr (Some [])\<rparr>"

definition digital_world :: world where
  "digital_world =
     \<lparr>target = Regular_file,
      opened_for_detect = Inr [invoice_page, blank_page, totals_page],
      opened_for_extract = Inr [invoice_page, blank_page, totals_page],
      images_from_path = Inl (Exception ''poppler not found'')\<rparr>"

definition scanned_world :: world where
  "scanned_world =
     \<lparr>target = Regular_file,
      opened_for_detect = Inr [blank_page],
      opened_for_extract = Inr [blank_page],
      images_from_path = Inr [Inr '' Hello \<newline>\<newline> world '', Inr '' \<newline>'', Inr ''bye'']\<rparr>"

definition broken_ocr_world :: world where
  "broken_ocr_world =
     scanned_world\<lparr>images_from_path :=
       Inr [Inr ''Hello'', Inl (Exception ''tesseract is not installed'')]\<rparr>"

definition missing_world :: world where
  "missing_world =
     \<lparr>target = Nothing,
      opened_for_detect = Inl (Exception ''no such file''),
      opened_for_extract = Inl (Exception ''no such file''),
      images_from_path = Inl (Exception ''no such file'')\<rparr>"



definition long_name :: string where
  "long_name = replicate 256 CHR ''a''"

definition long_name_world :: world where
  "long_name_world =
     \<lparr>target = Stat_error (Exception ''[Errno 36] File name too long''),
      opened_for_detect = Inl (Exception ''[Errno 36] File name too long''),
      opened_for_extract = Inl (Exception ''[Errno 36] File name too long''),
      images_from_path = Inl (Exception ''Unable to get page count'')\<rparr>"

definition directory_world :: world where
  "directory_world =
     \<lparr>target = Directory,
      opened_for_detect = Inl (Exception ''[Errno 21] Is a directory''),
      opened_for_extract = Inl (Exception ''[Errno 21] Is a directory''),
      images_from_path = Inl (Exception ''Unable to get page count'')\<rparr>"

definition null_cells_page :: page where
  "null_cells_page =
     \<lparr>page_text = Inr (Some invoice_text),
      page_tables = Inr (Some [[Some [None, None]]])\<rparr>"

definition null_cells_world :: world where
  "null_cells_world =
     \<lparr>target = Regular_file,
      opened_for_detect = Inr [null_cells_page],
      opened_for_extract = Inr [null_cells_page],
      images_from_path = Inl (Exception ''poppler not found'')\<rparr>"

definition fresh_extractor :: pdf_extractor where
  "fresh_extractor = init False False None None"


section \<open>Library facts\<close>

lemma truthy_simps [simp]:
  "truthy None = False" "truthy (Some xs) = (xs \<noteq> [])"
  by (simp_all add: truthy_def)

lemma dropWhile_hd_not: "dropWhile P xs \<noteq> [] \<Longrightarrow> \<not> P (hd (dropWhile P xs))"
  by (simp add: hd_dropWhile)

lemma last_dropWhile: "dropWhile P xs \<noteq> [] \<Longrightarrow> last (dropWhile P xs) = last xs"
  by (induction xs) (auto split: if_splits)

lemma str_strip_clean: "\<not> has_surrounding_space (str_strip s)"
proof (cases "str_strip s = []")
  case True
  then show ?thesis by (simp add: has_surrounding_space_def)
next
  case False
  define t where "t = dropWhile isspace s"
  define u where "u = dropWhile isspace (rev t)"
  have su: "str_strip s = rev u" by (simp add: str_strip_def t_def u_def)
  with False have u: "u \<noteq> []" by simp
  then have t: "t \<noteq> []" by (auto simp: u_def)
  have "\<not> isspace (hd u)" using u unfolding u_def by (rule dropWhile_hd_not)
  then have l: "\<not> isspace (last (rev u))" using u by (simp add: last_rev)
  have "last u = last (rev t)" using u unfolding u_def by (rule last_dropWhile)
  then have "hd (rev u) = hd t" using u t by (simp add: hd_rev last_rev)
  moreover have "\<not> isspace (hd t)" using t unfolding t_def by (rule dropWhile_hd_not)
  ultimately show ?thesis using l by (simp add: has_surrounding_space_def su)
qed

lemma str_strip_Nil [simp]: "str_strip [] = []"
  by (simp add: str_strip_def)

lemma str_join_append:
  "xs \<noteq> [] \<Longrightarrow> ys \<noteq> [] \<Longrightarrow> str_join sep (xs @ ys) = str_join sep xs @ sep @ str_join sep ys"
proof (induction sep xs rule: str_join.induct)
  case (1 sep)
  then show ?case by simp
next
  case (2 sep x)
  then show ?case by (cases ys) simp_all
next
  case (3 sep x y zs)
  then show ?case by simp
qed

lemma text_pages_loop_ok:
  "\<forall>pg\<in>set pages. \<not> isl (page_text pg) \<Longrightarrow>
   fst (text_pages_loop n pages acc lg) =
     Inr (acc @ map the (filter truthy (map (\<lambda>pg. projr (page_text pg)) pages)))"
proof (induction pages arbitrary: n acc lg)
  case Nil
  then show ?case by simp
next
  case (Cons pg pages)
  then obtain t where t: "page_text pg = Inr t" by (cases "page_text pg") auto
  with Cons show ?case by simp
qed

lemma text_pages_loop_fail:
  "\<exists>pg\<in>set pages. isl (page_text pg) \<Longrightarrow> isl (fst (text_pages_loop n pages acc lg))"
proof (induction pages arbitrary: n acc lg)
  case Nil
  then show ?case by simp
next
  case (Cons pg pages)
  then show ?case by (cases "page_text pg") auto
qed

lemma ocr_loop_ok:
  "\<forall>img\<in>set imgs. \<not> isl img \<Longrightarrow>
   fst (ocr_loop n imgs acc lg) = Inr (acc @ map (\<lambda>img. clean_lines (projr img)) imgs)"
proof (induction imgs arbitrary: n acc lg)
  case Nil
  then show ?case by simp
next
  case (Cons img imgs)
  then obtain t where t: "img = Inr t" by (cases img) auto
  with Cons show ?case by simp
qed

lemma ocr_loop_fail:
  "\<exists>img\<in>set imgs. isl img \<Longrightarrow> isl (fst (ocr_loop n imgs acc lg))"
proof (induction imgs arbitrary: n acc lg)
  case Nil
  then show ?case by simp
next
  case (Cons img imgs)
  then show ?case by (cases img) auto
qed

lemma rows_loop_eq:
  "rows_loop rows acc = acc @ map (\<lambda>r. clean_row (the r)) (filter truthy rows)"
  by (induction rows arbitrary: acc) simp_all

lemma tables_loop_eq:
  "fst (tables_loop pn tn tbls acc lg) =
     acc @ filter (\<lambda>t. t \<noteq> []) (map (\<lambda>tbl. rows_loop tbl []) tbls)"
  by (induction tbls arbitrary: tn acc lg) (simp_all add: Let_def)


section \<open>The table loops\<close>

lemma table_pages_loop_mem:
  "fst (table_pages_loop n pages acc lg) = Inr ts \<Longrightarrow> t \<in> set ts \<Longrightarrow>
   t \<in> set acc \<or>
   (\<exists>pg\<in>set pages. \<exists>raws. page_tables pg = Inr (Some raws) \<and>
      (\<exists>raw\<in>set raws. t = map (\<lambda>r. clean_row (the r)) (filter truthy raw) \<and> t \<noteq> []))"
proof (induction pages arbitrary: n acc lg)
  case Nil
  then show ?case by simp
next
  case (Cons pg pages)
  show ?case
  proof (cases "page_tables pg")
    case (Inl e)
    with Cons.prems show ?thesis by simp
  next
    case (Inr tabs)
    show ?thesis
    proof (cases "truthy tabs")
      case False
      with Inr Cons.prems have "fst (table_pages_loop (n + 1) pages acc lg) = Inr ts" by simp
      from Cons.IH [OF this Cons.prems(2)] show ?thesis by auto
    next
      case True
      then obtain raws where raws: "tabs = Some raws" by (cases tabs) auto
      obtain acc' lg' where tl: "tables_loop n 0 raws acc lg = (acc', lg')"
        by (cases "tables_loop n 0 raws acc lg")
      have acc': "acc' = acc @ filter (\<lambda>t. t \<noteq> []) (map (\<lambda>tbl. rows_loop tbl []) raws)"
        using tables_loop_eq [of n 0 raws acc lg] tl by simp
      from Inr True raws tl Cons.prems(1)
      have "fst (table_pages_loop (n + 1) pages acc' lg') = Inr ts" by simp
      from Cons.IH [OF this Cons.prems(2)]
      show ?thesis
      proof
        assume "t \<in> set acc'"
        with acc' have "t \<in> set acc \<or> (t \<noteq> [] \<and> (\<exists>raw\<in>set raws. t = rows_loop raw []))"
          by auto
        then show ?thesis using Inr raws by (auto simp: rows_loop_eq)
      next
        assume "\<exists>pg\<in>set pages. \<exists>raws. page_tables pg = Inr (Some raws) \<and>
          (\<exists>raw\<in>set raws. t = map (\<lambda>r. clean_row (the r)) (filter truthy raw) \<and> t \<noteq> [])"
        then show ?thesis by auto
      qed
    qed
  qed
qed

lemma extract_tables_nonempty:
  assumes "fst (extract_tables w self p) = Inr tables" and "tables \<noteq> []"
  shows "path_exists (target w) = Inr True \<and> fst (detect_pdf_type (opened_for_detect w) p) = ''digital'' \<and>
         (\<exists>pages. opened_for_extract w = Inr pages \<and>
                  fst (table_pages_loop 0 pages [] []) = Inr tables)"
  using assms
  by (auto simp: extract_tables_def extract_tables_try_def extract_tables_digital_def Let_def
           split: if_splits prod.splits sum.splits)

lemma extract_tables_mem:
  assumes "fst (extract_tables w self p) = Inr tables" and "t \<in> set tables"
  shows "\<exists>pages. opened_for_extract w = Inr pages \<and>
           (\<exists>pg\<in>set pages. \<exists>raws. page_tables pg = Inr (Some raws) \<and>
              (\<exists>raw\<in>set raws. t = map (\<lambda>r. clean_row (the r)) (filter truthy raw) \<and> t \<noteq> []))"
proof -
  from assms have "tables \<noteq> []" by auto
  from extract_tables_nonempty [OF assms(1) this]
  obtain pages where pages: "opened_for_extract w = Inr pages"
    and loop: "fst (table_pages_loop 0 pages [] []) = Inr tables" by blast
  from table_pages_loop_mem [OF loop assms(2)] pages show ?thesis by simp
qed

lemma clean_row_nth:
  "i < length cells \<Longrightarrow>
   clean_row cells ! i = (case cells ! i of None \<Rightarrow> [] | Some c \<Rightarrow> str_strip c)"
  by (cases "cells ! i") (simp_all add: clean_row_def)

lemma clean_row_cells: "cell \<in> set (clean_row cells) \<Longrightarrow> \<not> has_surrounding_space cell"
proof -
  assume "cell \<in> set (clean_row cells)"
  then have "cell = [] \<or> (\<exists>c. cell = str_strip c)" by (auto simp: clean_row_def)
  then show ?thesis using str_strip_clean by (auto simp: has_surrounding_space_def)
qed



section \<open>Classification\<close>

lemma isspace_simps [simp]:
  "isspace CHR '' ''" "isspace CHR ''\<newline>''"
  by (simp_all add: isspace_def)

lemma str_strip_invoice_text:
  "str_strip invoice_text = ''Invoice No: INV-2024-0042 issued to ACME Corporation Ltd, 12/03/2024''"
  by (simp add: invoice_text_def str_strip_def isspace_def)

text \<open>
  Claim C1. Classification looks at the first page only. A failure to open the
  document, a document without pages, and a first page whose text cannot be read or is
  absent all give \<^verbatim>\<open>'scanned'\<close>; a first page with a text gives \<^verbatim>\<open>'digital'\<close> when the
  stripped text has more than 50 characters and \<^verbatim>\<open>'scanned'\<close> otherwise; the pages after
  the first change neither the result nor the log. The function returns a value in
  every case: no exception leaves it.
\<close>

theorem detect_pdf_type_first_page:
  "fst (detect_pdf_type (Inl e) p) = ''scanned'' \<and>
   fst (detect_pdf_type (Inr []) p) = ''scanned'' \<and>
   (page_text pg = Inl e \<longrightarrow> fst (detect_pdf_type (Inr (pg # rest)) p) = ''scanned'') \<and>
   (page_text pg = Inr None \<longrightarrow> fst (detect_pdf_type (Inr (pg # rest)) p) = ''scanned'') \<and>
   (page_text pg = Inr (Some t) \<longrightarrow>
      fst (detect_pdf_type (Inr (pg # rest)) p) =
        (if 50 < length (str_strip t) then ''digital'' else ''scanned'')) \<and>
   detect_pdf_type (Inr (pg # rest)) p = detect_pdf_type (Inr [pg]) p"
  by (cases "page_text pg") (auto simp: detect_pdf_type_def)

theorem detect_pdf_type_first_page_witness:
  "fst (detect_pdf_type (Inr [invoice_page, blank_page]) ''invoice.pdf'') = ''digital'' \<and>
   fst (detect_pdf_type (Inr [blank_page, invoice_page]) ''invoice.pdf'') = ''scanned'' \<and>
   fst (detect_pdf_type (Inr [totals_page, invoice_page]) ''invoice.pdf'') = ''scanned'' \<and>
   fst (detect_pdf_type
          (Inr [\<lparr>page_text = Inl (Exception ''bad xref''), page_tables = Inr None\<rparr>, invoice_page])
          ''invoice.pdf'') = ''scanned''"
proof -
  have a: "page_text invoice_page = Inr (Some invoice_text)" by (simp add: invoice_page_def)
  have b: "page_text blank_page = Inr None" by (simp add: blank_page_def)
  have c: "page_text totals_page = Inr (Some ''Total: 12'')" by (simp add: totals_page_def)
  have d: "page_text \<lparr>page_text = Inl (Exception ''bad xref''), page_tables = Inr None\<rparr>
             = Inl (Exception ''bad xref'')" by simp
  have s: "str_strip ''Total: 12'' = ''Total: 12''" by (simp add: str_strip_def isspace_def)
  have "fst (detect_pdf_type (Inr [invoice_page, blank_page]) ''invoice.pdf'') =
          (if 50 < length (str_strip invoice_text) then ''digital'' else ''scanned'')"
    using detect_pdf_type_first_page [where pg = invoice_page and t = invoice_text] a by blast
  then have 1: "fst (detect_pdf_type (Inr [invoice_page, blank_page]) ''invoice.pdf'') = ''digital''"
    by (simp add: str_strip_invoice_text)
  have 2: "fst (detect_pdf_type (Inr [blank_page, invoice_page]) ''invoice.pdf'') = ''scanned''"
    using detect_pdf_type_first_page [where pg = blank_page] b by blast
  have "fst (detect_pdf_type (Inr [totals_page, invoice_page]) ''invoice.pdf'') =
          (if 50 < length (str_strip ''Total: 12'') then ''digital'' else ''scanned'')"
    using detect_pdf_type_first_page [where pg = totals_page and t = "''Total: 12''"] c by blast
  then have 3: "fst (detect_pdf_type (Inr [totals_page, invoice_page]) ''invoice.pdf'') = ''scanned''"
    by (simp add: s)
  have 4: "fst (detect_pdf_type
          (Inr [\<lparr>page_text = Inl (Exception ''bad xref''), page_tables = Inr None\<rparr>, invoice_page])
          ''invoice.pdf'') = ''scanned''"
    using detect_pdf_type_first_page [where e = "Exception ''bad xref''"
        and pg = "\<lparr>page_text = Inl (Exception ''bad xref''), page_tables = Inr None\<rparr>"] d
    by blast
  from 1 2 3 4 show ?thesis by blast
qed

section \<open>Facts about the fixtures\<close>

lemma invoice_text_not_empty: "invoice_text \<noteq> []"
  by (simp add: invoice_text_def)

lemma detect_digital_world:
  "detect_pdf_type (Inr (invoice_page # rest)) p = (''digital'', [])"
  by (simp add: invoice_page_def detect_pdf_type_def str_strip_invoice_text
        invoice_text_not_empty)



lemma detect_scanned_world:
  "detect_pdf_type (opened_for_detect scanned_world) p = (''scanned'', [])"
  by (simp add: scanned_world_def blank_page_def detect_pdf_type_def)

lemma clean_lines_examples:
  "clean_lines '' Hello \<newline>\<newline> world '' = ''Hello\<newline>world''"
  "clean_lines '' \<newline>'' = []"
  "clean_lines ''bye'' = ''bye''"
  by (simp_all add: clean_lines_def str_strip_def isspace_def)

lemma digital_world_fields:
  "path_exists (target digital_world) = Inr True"
  "opened_for_detect digital_world = Inr [invoice_page, blank_page, totals_page]"
  "opened_for_extract digital_world = Inr [invoice_page, blank_page, totals_page]"
  by (simp_all add: digital_world_def)

lemma clean_row_examples:
  "clean_row [Some '' Item '', None, Some ''Qty''] = [''Item'', [], ''Qty'']"
  "clean_row [Some ''A4 paper'', Some '' 2 '', None] = [''A4 paper'', ''2'', []]"
  by (simp_all add: clean_row_def str_strip_def isspace_def)

lemma digital_world_tables:
  "fst (extract_tables digital_world fresh_extractor ''invoice.pdf'') =
     Inr [[[''Item'', [], ''Qty''], [''A4 paper'', ''2'', []]]]"
proof -
  have "fst (extract_tables_digital (Inr [invoice_page, blank_page, totals_page])) =
          Inr [[[''Item'', [], ''Qty''], [''A4 paper'', ''2'', []]]]"
    by (simp add: extract_tables_digital_def invoice_page_def blank_page_def totals_page_def
          clean_row_examples Let_def)
  then show ?thesis
    by (cases "extract_tables_digital (Inr [invoice_page, blank_page, totals_page])")
       (simp add: extract_tables_def extract_tables_try_def digital_world_fields
          detect_digital_world Let_def)
qed


section \<open>Exceptions and the caller\<close>





section \<open>Missing files\<close>

text \<open>
  Claim C7, for the paths that lead to nothing. When \<^verbatim>\<open>Path(pdf_path).exists()\<close>
  returns \<^verbatim>\<open>False\<close> (nothing
  is at the path, and the check completes), \<^verbatim>\<open>extract_text\<close> returns the empty
  string and \<^verbatim>\<open>extract_tables\<close> the empty list, without an exception; the only
  effect is one error record naming the path. Nothing else of the environment is
  consulted: the mode is unchanged and no record of the classification is logged.
\<close>

theorem missing_file_fallback:
  assumes "path_exists (target w) = Inr False"
  shows "extract_text w self p =
           (Inr [], self\<lparr>logged := logged self @ [(ERROR, File_not_found p)]\<rparr>) \<and>
         extract_tables w self p =
           (Inr [], self\<lparr>logged := logged self @ [(ERROR, File_not_found p)]\<rparr>)"
  using assms by (simp add: extract_text_def extract_tables_def)

theorem missing_file_fallback_witness:
  "fst (extract_text missing_world fresh_extractor ''nothing.pdf'') = Inr [] \<and>
   fst (extract_tables missing_world fresh_extractor ''nothing.pdf'') = Inr [] \<and>
   extraction_mode (snd (extract_text missing_world fresh_extractor ''nothing.pdf'')) = ''unknown'' \<and>
   logged (snd (extract_tables missing_world fresh_extractor ''nothing.pdf'')) =
     logged fresh_extractor @ [(ERROR, File_not_found ''nothing.pdf'')]"
proof -
  have "path_exists (target missing_world) = Inr False" by (simp add: missing_world_def)
  from missing_file_fallback [OF this, of fresh_extractor "''nothing.pdf''"]
  show ?thesis by (simp add: fresh_extractor_def init_def)
qed

text \<open>
  Other paths that lead to no file behave differently. A directory exists, so it is
  classified (as scanned, since it cannot be opened), the mode is set, and
  \<^verbatim>\<open>extract_text\<close> returns the fallback string of the scanned path instead of the
  empty string. For a name of 256 characters the existence check raises and no value
  is returned.
\<close>

theorem missing_file_not_empty_result:
  "target directory_world \<noteq> Regular_file \<and>
   fst (extract_text directory_world fresh_extractor ''uploads'') =
     Inr ''OCR Functionaliy Not Available On This Platform'' \<and>
   fst (extract_text directory_world fresh_extractor ''uploads'') \<noteq> Inr [] \<and>
   extraction_mode (snd (extract_text directory_world fresh_extractor ''uploads'')) = ''uploads'' \<and>
   extraction_mode (snd (extract_tables directory_world fresh_extractor ''uploads'')) = ''scanned'' \<and>
   target long_name_world \<noteq> Regular_file \<and>
   fst (extract_text long_name_world fresh_extractor long_name) \<noteq> Inr [] \<and>
   fst (extract_tables long_name_world fresh_extractor long_name) \<noteq> Inr []"
  by (simp add: extract_text_def extract_text_try_def extract_tables_def extract_tables_try_def
        detect_pdf_type_def extract_text_scanned_def directory_world_def long_name_world_def
        Let_def)


section \<open>Scanned documents\<close>

text \<open>
  Claim C4. For an existing document that classifies as scanned, \<^verbatim>\<open>extract_tables\<close>
  returns the empty list, without an exception, after logging the three warnings of
  lines 114 to 116.
\<close>

theorem scanned_has_no_tables:
  assumes "path_exists (target w) = Inr True"
    and "fst (detect_pdf_type (opened_for_detect w) p) = ''scanned''"
  shows "fst (extract_tables w self p) = Inr [] \<and>
         logged (snd (extract_tables w self p)) =
           logged self @ snd (detect_pdf_type (opened_for_detect w) p) @
           [(INFO, Processing_tables ''scanned'' p),
            (WARNING, Table_extraction_warning),
            (WARNING, Scanned_pdf_detected),
            (WARNING, Return_empty_list)]"
proof -
  obtain lg0 where d: "detect_pdf_type (opened_for_detect w) p = (''scanned'', lg0)"
    using assms(2) by (cases "detect_pdf_type (opened_for_detect w) p") simp
  with assms(1) show ?thesis
    by (simp add: extract_tables_def extract_tables_try_def Let_def)
qed

theorem scanned_has_no_tables_witness:
  "fst (extract_tables scanned_world fresh_extractor ''scan.pdf'') = Inr [] \<and>
   logged (snd (extract_tables scanned_world fresh_extractor ''scan.pdf'')) =
     logged fresh_extractor @
     [(INFO, Processing_tables ''scanned'' ''scan.pdf''),
      (WARNING, Table_extraction_warning),
      (WARNING, Scanned_pdf_detected),
      (WARNING, Return_empty_list)]"
proof -
  have a: "path_exists (target scanned_world) = Inr True" by (simp add: scanned_world_def)
  have b: "fst (detect_pdf_type (opened_for_detect scanned_world) ''scan.pdf'') = ''scanned''"
    by (simp add: detect_scanned_world)
  from scanned_has_no_tables [OF a b, of fresh_extractor]
  show ?thesis by (simp add: detect_scanned_world)
qed

lemma extract_text_scanned_fail:
  assumes "(\<exists>e. images = Inl e) \<or> (\<exists>imgs. images = Inr imgs \<and> (\<exists>img\<in>set imgs. isl img))"
  shows "fst (extract_text_scanned images p) = ''OCR Functionaliy Not Available On This Platform''"
  using assms
proof
  assume "\<exists>e. images = Inl e"
  then show ?thesis by (auto simp: extract_text_scanned_def)
next
  assume "\<exists>imgs. images = Inr imgs \<and> (\<exists>img\<in>set imgs. isl img)"
  then obtain imgs where i: "images = Inr imgs" and f: "\<exists>img\<in>set imgs. isl img" by blast
  from ocr_loop_fail [OF f, of 0 "[]" "[]"] obtain e lg where "ocr_loop 0 imgs [] [] = (Inl e, lg)"
    by (cases "ocr_loop 0 imgs [] []") (auto simp: isl_def)
  with i show ?thesis by (simp add: extract_text_scanned_def)
qed

text \<open>
  Claim C3. On the scanned path, when rasterization fails or the recognition of any page
  fails, \<^verbatim>\<open>extract_text\<close> returns exactly the fallback string, whatever the pages
  before the failure yielded.
\<close>

theorem ocr_failure_gives_sentinel:
  assumes "path_exists (target w) = Inr True"
    and "fst (detect_pdf_type (opened_for_detect w) p) = ''scanned''"
    and "(\<exists>e. images_from_path w = Inl e) \<or>
         (\<exists>imgs. images_from_path w = Inr imgs \<and> (\<exists>img\<in>set imgs. isl img))"
  shows "fst (extract_text_scanned (images_from_path w) p) =
           ''OCR Functionaliy Not Available On This Platform'' \<and>
         fst (extract_text w self p) = Inr ''OCR Functionaliy Not Available On This Platform''"
proof -
  from extract_text_scanned_fail [OF assms(3)]
  have s: "fst (extract_text_scanned (images_from_path w) p) =
             ''OCR Functionaliy Not Available On This Platform''" .
  obtain lg0 where d: "detect_pdf_type (opened_for_detect w) p = (''scanned'', lg0)"
    using assms(2) by (cases "detect_pdf_type (opened_for_detect w) p") simp
  obtain res lg where t: "extract_text_scanned (images_from_path w) p = (res, lg)"
    by (cases "extract_text_scanned (images_from_path w) p")
  from assms(1) d t s
  have "fst (extract_text w self p) = Inr ''OCR Functionaliy Not Available On This Platform''"
    by (simp add: extract_text_def extract_text_try_def Let_def)
  with s show ?thesis by simp
qed

theorem ocr_failure_gives_sentinel_witness:
  "fst (extract_text broken_ocr_world fresh_extractor ''scan.pdf'') =
     Inr ''OCR Functionaliy Not Available On This Platform'' \<and>
   fst (extract_text (scanned_world\<lparr>images_from_path := Inl (Exception ''poppler not found'')\<rparr>)
          fresh_extractor ''scan.pdf'') =
     Inr ''OCR Functionaliy Not Available On This Platform''"
proof -
  let ?w = "scanned_world\<lparr>images_from_path := Inl (Exception ''poppler not found'')\<rparr>"
  have a: "path_exists (target broken_ocr_world) = Inr True" "path_exists (target ?w) = Inr True"
    by (simp_all add: broken_ocr_world_def scanned_world_def)
  have b: "fst (detect_pdf_type (opened_for_detect broken_ocr_world) ''scan.pdf'') = ''scanned''"
    "fst (detect_pdf_type (opened_for_detect ?w) ''scan.pdf'') = ''scanned''"
    by (simp_all add: broken_ocr_world_def scanned_world_def blank_page_def detect_pdf_type_def)
  have c: "(\<exists>e. images_from_path broken_ocr_world = Inl e) \<or>
         (\<exists>imgs. images_from_path broken_ocr_world = Inr imgs \<and> (\<exists>img\<in>set imgs. isl img))"
    by (simp add: broken_ocr_world_def scanned_world_def)
  have d: "(\<exists>e. images_from_path ?w = Inl e) \<or>
         (\<exists>imgs. images_from_path ?w = Inr imgs \<and> (\<exists>img\<in>set imgs. isl img))"
    by simp
  from ocr_failure_gives_sentinel [OF a(1) b(1) c, of fresh_extractor]
    ocr_failure_gives_sentinel [OF a(2) b(2) d, of fresh_extractor]
  show ?thesis by blast
qed


section \<open>The extraction mode\<close>

lemma extract_text_mode:
  "path_exists (target w) = Inr True \<Longrightarrow> get_extraction_mode (snd (extract_text w self p)) = p"
  by (simp add: extract_text_def extract_text_try_def get_extraction_mode_def Let_def
        split: prod.splits sum.splits if_splits)

lemma extract_tables_mode:
  "path_exists (target w) = Inr True \<Longrightarrow>
   get_extraction_mode (snd (extract_tables w self p)) =
     fst (detect_pdf_type (opened_for_detect w) p)"
  by (simp add: extract_tables_def extract_tables_try_def get_extraction_mode_def Let_def
        split: prod.splits sum.splits if_splits)

lemma init_mode: "get_extraction_mode (init a b c d) = ''unknown''"
  by (simp add: init_def get_extraction_mode_def)

text \<open>
  Claim C5. The mode is \<^verbatim>\<open>'unknown'\<close> after construction, and \<^verbatim>\<open>extract_tables\<close>
  stores the classification. \<^verbatim>\<open>extract_text\<close> however stores its argument
  \<^verbatim>\<open>pdf_path\<close> (line 71): after extracting the text of the existing digital document
  \<^verbatim>\<open>invoice.pdf\<close> with a fresh extractor, the mode is \<^verbatim>\<open>'invoice.pdf'\<close>, which is
  none of \<^verbatim>\<open>'digital'\<close>, \<^verbatim>\<open>'scanned'\<close>, \<^verbatim>\<open>'unknown'\<close>.
\<close>

theorem extract_text_stores_path:
  "path_exists (target digital_world) = Inr True \<and>
   fst (detect_pdf_type (opened_for_detect digital_world) ''invoice.pdf'') = ''digital'' \<and>
   get_extraction_mode (snd (extract_text digital_world fresh_extractor ''invoice.pdf''))
     = ''invoice.pdf'' \<and>
   get_extraction_mode (snd (extract_text digital_world fresh_extractor ''invoice.pdf''))
     \<notin> {''digital'', ''scanned'', ''unknown''}"
proof -
  have a: "path_exists (target digital_world) = Inr True" by (simp add: digital_world_def)
  have b: "fst (detect_pdf_type (opened_for_detect digital_world) ''invoice.pdf'') = ''digital''"
    by (simp add: digital_world_def detect_digital_world)
  from a b extract_text_mode [OF a, of fresh_extractor "''invoice.pdf''"]
  show ?thesis by simp
qed

section \<open>Joining the pages\<close>

lemma extract_text_digital_ok:
  assumes "map page_text pages = map Inr texts"
  shows "fst (extract_text_digital (Inr pages)) =
           Inr (str_join ''\<newline>'' (map the (filter truthy texts)))"
proof -
  from assms have ok: "\<forall>pg\<in>set pages. \<not> isl (page_text pg)"
    by (induction pages arbitrary: texts) auto
  from assms have "map (\<lambda>pg. projr (page_text pg)) pages = texts"
    by (induction pages arbitrary: texts) auto
  with text_pages_loop_ok [OF ok, of 0 "[]" "[]"]
  have "fst (text_pages_loop 0 pages [] []) = Inr (map the (filter truthy texts))" by simp
  then show ?thesis
    by (cases "text_pages_loop 0 pages [] []") (simp add: extract_text_digital_def)
qed

lemma extract_text_scanned_ok:
  "fst (extract_text_scanned (Inr (map Inr raws)) p) =
     str_join ''\<newline>\<newline>'' (map clean_lines raws)"
proof -
  have "fst (ocr_loop 0 (map Inr raws) [] []) =
          Inr (map (\<lambda>img. clean_lines (projr img)) (map Inr raws))"
    using ocr_loop_ok [of "map Inr raws" 0 "[]" "[]"] by auto
  then have "fst (ocr_loop 0 (map Inr raws) [] []) = Inr (map clean_lines raws)"
    by (simp add: comp_def)
  then show ?thesis
    by (cases "ocr_loop 0 (map Inr raws) [] []") (simp add: extract_text_scanned_def)
qed

text \<open>
  Claim C6. When every page answers, the digital text is the texts of the pages that
  have one, in order, joined by a single newline; for two pages with texts \<open>a\<close> and
  \<open>b\<close> it is \<open>a\<close>, a newline, \<open>b\<close>. When every image is recognized, the scanned
  text is the cleaned texts of the images joined by two newlines; for two images it is
  the first text, two newlines, the second text.
\<close>

theorem page_separators:
  "(map page_text pages = map Inr texts \<longrightarrow>
      fst (extract_text_digital (Inr pages)) =
        Inr (str_join ''\<newline>'' (map the (filter truthy texts)))) \<and>
   (page_text pg1 = Inr (Some a) \<and> page_text pg2 = Inr (Some b) \<and> a \<noteq> [] \<and> b \<noteq> [] \<longrightarrow>
      fst (extract_text_digital (Inr [pg1, pg2])) = Inr (a @ ''\<newline>'' @ b)) \<and>
   fst (extract_text_scanned (Inr (map Inr raws)) p) =
     str_join ''\<newline>\<newline>'' (map clean_lines raws) \<and>
   fst (extract_text_scanned (Inr [Inr x, Inr y]) p) =
     clean_lines x @ ''\<newline>\<newline>'' @ clean_lines y"
proof -
  have "fst (extract_text_digital (Inr [pg1, pg2])) = Inr (a @ ''\<newline>'' @ b)"
    if "page_text pg1 = Inr (Some a)" "page_text pg2 = Inr (Some b)" "a \<noteq> []" "b \<noteq> []"
    using extract_text_digital_ok [of "[pg1, pg2]" "[Some a, Some b]"] that by simp
  moreover have "fst (extract_text_scanned (Inr [Inr x, Inr y]) p) =
     clean_lines x @ ''\<newline>\<newline>'' @ clean_lines y"
    using extract_text_scanned_ok [of "[x, y]" p] by simp
  ultimately show ?thesis
    using extract_text_digital_ok [of pages texts] extract_text_scanned_ok [of raws p]
    by blast
qed

theorem page_separators_witness:
  "fst (extract_text_digital (Inr [invoice_page, blank_page, totals_page])) =
     Inr (invoice_text @ ''\<newline>'' @ ''Total: 12'') \<and>
   fst (extract_text_digital (Inr [invoice_page, totals_page])) =
     Inr (invoice_text @ ''\<newline>'' @ ''Total: 12'') \<and>
   fst (extract_text_scanned (Inr [Inr '' Hello \<newline>\<newline> world '', Inr ''bye'']) ''scan.pdf'') =
     ''Hello\<newline>world\<newline>\<newline>bye''"
proof -
  have a: "map page_text [invoice_page, blank_page, totals_page] =
             map Inr [Some invoice_text, None, Some ''Total: 12'']"
    by (simp add: invoice_page_def blank_page_def totals_page_def)
  have b: "page_text invoice_page = Inr (Some invoice_text) \<and>
           page_text totals_page = Inr (Some ''Total: 12'') \<and>
           invoice_text \<noteq> [] \<and> ''Total: 12'' \<noteq> []"
    by (simp add: invoice_page_def totals_page_def invoice_text_not_empty)
  from page_separators [where pages = "[invoice_page, blank_page, totals_page]"
      and texts = "[Some invoice_text, None, Some ''Total: 12'']"] a
  have 1: "fst (extract_text_digital (Inr [invoice_page, blank_page, totals_page])) =
     Inr (invoice_text @ ''\<newline>'' @ ''Total: 12'')"
    by (simp add: invoice_text_not_empty)
  from page_separators [where ?pg1.0 = invoice_page and ?pg2.0 = totals_page
      and a = invoice_text and b = "''Total: 12''"] b
  have 2: "fst (extract_text_digital (Inr [invoice_page, totals_page])) =
     Inr (invoice_text @ ''\<newline>'' @ ''Total: 12'')"
    by blast
  from page_separators [where x = "'' Hello \<newline>\<newline> world ''" and y = "''bye''" and p = "''scan.pdf''"]
  have 3: "fst (extract_text_scanned (Inr [Inr '' Hello \<newline>\<newline> world '', Inr ''bye'']) ''scan.pdf'') =
     ''Hello\<newline>world\<newline>\<newline>bye''"
    by (simp add: clean_lines_examples)
  from 1 2 3 show ?thesis by blast
qed

text \<open>
  Claim C10. On the scanned path every image contributes one segment to the join, also
  when its cleaned text is empty: an image without recognized text between other images
  leaves an empty segment between two separators. On the digital path a page without
  text contributes nothing: the result is the one of the document without that page.
\<close>

theorem empty_scanned_page_kept:
  "(clean_lines r = [] \<and> xs \<noteq> [] \<and> ys \<noteq> [] \<longrightarrow>
      fst (extract_text_scanned (Inr (map Inr (xs @ [r] @ ys))) p) =
        fst (extract_text_scanned (Inr (map Inr xs)) p) @ ''\<newline>\<newline>'' @ ''\<newline>\<newline>'' @
        fst (extract_text_scanned (Inr (map Inr ys)) p)) \<and>
   (\<exists>segments. length segments = length raws \<and>
      fst (extract_text_scanned (Inr (map Inr raws)) p) = str_join ''\<newline>\<newline>'' segments) \<and>
   (map page_text (ps @ [pg] @ qs) = map Inr (ts @ [t] @ us) \<and> length ps = length ts \<and>
    \<not> truthy t \<longrightarrow>
      fst (extract_text_digital (Inr (ps @ [pg] @ qs))) =
        fst (extract_text_digital (Inr (ps @ qs))))"
proof -
  have "fst (extract_text_scanned (Inr (map Inr (xs @ [r] @ ys))) p) =
        fst (extract_text_scanned (Inr (map Inr xs)) p) @ ''\<newline>\<newline>'' @ ''\<newline>\<newline>'' @
        fst (extract_text_scanned (Inr (map Inr ys)) p)"
    if "clean_lines r = []" "xs \<noteq> []" "ys \<noteq> []"
  proof -
    have "str_join ''\<newline>\<newline>'' (map clean_lines xs @ ([] # map clean_lines ys)) =
            str_join ''\<newline>\<newline>'' (map clean_lines xs) @ ''\<newline>\<newline>'' @
            str_join ''\<newline>\<newline>'' ([] # map clean_lines ys)"
      using that by (intro str_join_append) simp_all
    moreover have "str_join ''\<newline>\<newline>'' ([] # map clean_lines ys) =
        ''\<newline>\<newline>'' @ str_join ''\<newline>\<newline>'' (map clean_lines ys)"
      using that(3) by (cases ys) simp_all
    ultimately show ?thesis
      using that(1) extract_text_scanned_ok [of "xs @ [r] @ ys" p]
        extract_text_scanned_ok [of xs p] extract_text_scanned_ok [of ys p]
      by simp
  qed
  moreover have "\<exists>segments. length segments = length raws \<and>
      fst (extract_text_scanned (Inr (map Inr raws)) p) = str_join ''\<newline>\<newline>'' segments"
    using extract_text_scanned_ok [of raws p] by (intro exI [of _ "map clean_lines raws"]) simp
  moreover have "fst (extract_text_digital (Inr (ps @ [pg] @ qs))) =
        fst (extract_text_digital (Inr (ps @ qs)))"
    if m: "map page_text (ps @ [pg] @ qs) = map Inr (ts @ [t] @ us)"
      and l: "length ps = length ts" and t: "\<not> truthy t"
  proof -
    from m l have "map page_text (ps @ qs) = map Inr (ts @ us)" by simp
    from extract_text_digital_ok [OF this] extract_text_digital_ok [OF m] t
    show ?thesis by simp
  qed
  ultimately show ?thesis by blast
qed

theorem empty_scanned_page_kept_witness:
  "fst (extract_text_scanned (images_from_path scanned_world) ''scan.pdf'') =
     ''Hello\<newline>world\<newline>\<newline>\<newline>\<newline>bye'' \<and>
   fst (extract_text_digital (Inr [invoice_page, blank_page, totals_page])) =
     fst (extract_text_digital (Inr [invoice_page, totals_page]))"
proof -
  have i: "images_from_path scanned_world =
      Inr (map Inr (['' Hello \<newline>\<newline> world ''] @ ['' \<newline>''] @ [''bye'']))"
    by (simp add: scanned_world_def)
  have a: "clean_lines '' \<newline>'' = [] \<and> ['' Hello \<newline>\<newline> world ''] \<noteq> [] \<and> [''bye''] \<noteq> []"
    by (simp add: clean_lines_examples)
  have e: "fst (extract_text_scanned (Inr (map Inr ['' Hello \<newline>\<newline> world ''])) ''scan.pdf'') =
             ''Hello\<newline>world''"
    "fst (extract_text_scanned (Inr (map Inr [''bye''])) ''scan.pdf'') = ''bye''"
    using extract_text_scanned_ok [of "['' Hello \<newline>\<newline> world '']" "''scan.pdf''"]
      extract_text_scanned_ok [of "[''bye'']" "''scan.pdf''"]
    by (simp_all add: clean_lines_examples)
  from empty_scanned_page_kept [where r = "'' \<newline>''" and xs = "['' Hello \<newline>\<newline> world '']"
      and ys = "[''bye'']" and p = "''scan.pdf''"] a
  have "fst (extract_text_scanned
               (Inr (map Inr (['' Hello \<newline>\<newline> world ''] @ ['' \<newline>''] @ [''bye'']))) ''scan.pdf'') =
        fst (extract_text_scanned (Inr (map Inr ['' Hello \<newline>\<newline> world ''])) ''scan.pdf'') @
        ''\<newline>\<newline>'' @ ''\<newline>\<newline>'' @
        fst (extract_text_scanned (Inr (map Inr [''bye''])) ''scan.pdf'')"
    by blast
  with i e have 1: "fst (extract_text_scanned (images_from_path scanned_world) ''scan.pdf'') =
     ''Hello\<newline>world\<newline>\<newline>\<newline>\<newline>bye''"
    by simp
  have b: "map page_text ([invoice_page] @ [blank_page] @ [totals_page]) =
             map Inr ([Some invoice_text] @ [None] @ [Some ''Total: 12'']) \<and>
           length [invoice_page] = length [Some invoice_text] \<and> \<not> truthy (None :: string option)"
    by (simp add: invoice_page_def blank_page_def totals_page_def)
  from empty_scanned_page_kept [where ps = "[invoice_page]" and pg = blank_page
      and qs = "[totals_page]" and ts = "[Some invoice_text]" and t = None
      and us = "[Some ''Total: 12'']"] b
  have "fst (extract_text_digital (Inr ([invoice_page] @ [blank_page] @ [totals_page]))) =
        fst (extract_text_digital (Inr ([invoice_page] @ [totals_page])))"
    by blast
  with 1 show ?thesis by simp
qed


section \<open>Cleaned tables\<close>

text \<open>
  Claim C8. Every table returned by \<^verbatim>\<open>extract_tables\<close> has at least one row. Every
  row returned comes from a row of a candidate table of some page, has as many cells as
  that row, and its cell at each position is the stripped cell of the candidate at that
  position, or the empty string where the candidate had \<^verbatim>\<open>None\<close>; no cell returned
  starts or ends with whitespace.
\<close>

theorem extract_tables_cells:
  assumes "fst (extract_tables w self p) = Inr tables" and "t \<in> set tables"
  shows "t \<noteq> [] \<and>
         (\<forall>row\<in>set t.
            (\<forall>cell\<in>set row. \<not> has_surrounding_space cell) \<and>
            (\<exists>pages pg raws raw cells.
               opened_for_extract w = Inr pages \<and> pg \<in> set pages \<and>
               page_tables pg = Inr (Some raws) \<and> raw \<in> set raws \<and> Some cells \<in> set raw \<and>
               length row = length cells \<and>
               (\<forall>i<length cells.
                  row ! i = (case cells ! i of None \<Rightarrow> [] | Some c \<Rightarrow> str_strip c))))"
proof -
  from extract_tables_mem [OF assms]
  obtain pages pg raws raw where w: "opened_for_extract w = Inr pages" "pg \<in> set pages"
    "page_tables pg = Inr (Some raws)" "raw \<in> set raws"
    and t: "t = map (\<lambda>r. clean_row (the r)) (filter truthy raw)" and ne: "t \<noteq> []"
    by blast
  have "(\<forall>cell\<in>set row. \<not> has_surrounding_space cell) \<and>
        (\<exists>cells. Some cells \<in> set raw \<and> length row = length cells \<and>
           (\<forall>i<length cells. row ! i = (case cells ! i of None \<Rightarrow> [] | Some c \<Rightarrow> str_strip c)))"
    if "row \<in> set t" for row
  proof -
    from that t obtain r where r: "r \<in> set raw" "truthy r" "row = clean_row (the r)" by auto
    from r(2) obtain cells where cells: "r = Some cells" by (cases r) simp_all
    with r have in_raw: "Some cells \<in> set raw" and row: "row = clean_row cells" by simp_all
    have len: "length row = length cells" by (simp add: row clean_row_def)
    have "\<forall>cell\<in>set row. \<not> has_surrounding_space cell"
      using clean_row_cells row by blast
    moreover have "\<forall>i<length cells.
        row ! i = (case cells ! i of None \<Rightarrow> [] | Some c \<Rightarrow> str_strip c)"
      by (simp add: row clean_row_nth)
    ultimately show ?thesis using in_raw len by blast
  qed
  with w ne show ?thesis by blast
qed

theorem extract_tables_cells_witness:
  "fst (extract_tables digital_world fresh_extractor ''invoice.pdf'') =
     Inr [[[''Item'', [], ''Qty''], [''A4 paper'', ''2'', []]]] \<and>
   \<not> has_surrounding_space ''Item'' \<and> \<not> has_surrounding_space [] \<and>
   \<not> has_surrounding_space ''A4 paper'' \<and> \<not> has_surrounding_space ''2'' \<and>
   (\<exists>pages pg raws raw cells.
      opened_for_extract digital_world = Inr pages \<and> pg \<in> set pages \<and>
      page_tables pg = Inr (Some raws) \<and> raw \<in> set raws \<and> Some cells \<in> set raw \<and>
      length [''A4 paper'', ''2'', []] = length cells \<and>
      (\<forall>i<length cells.
         [''A4 paper'', ''2'', []] ! i = (case cells ! i of None \<Rightarrow> [] | Some c \<Rightarrow> str_strip c)))"
proof -
  have b: "[[''Item'', [], ''Qty''], [''A4 paper'', ''2'', []]] \<in>
             set [[[''Item'', [], ''Qty''], [''A4 paper'', ''2'', []]]]" by simp
  from extract_tables_cells [OF digital_world_tables b] digital_world_tables
  show ?thesis by simp
qed

lemma rows_loop_drops:
  "\<not> truthy r \<Longrightarrow> rows_loop (xs @ [r] @ ys) acc = rows_loop (xs @ ys) acc"
  by (simp add: rows_loop_eq)

text \<open>
  Claim C9, for the rows that are themselves null. A candidate row that is itself
  \<^verbatim>\<open>None\<close> or empty is dropped by
  the cleaning: the cleaned table is the same as if the row were not there. Every table
  returned is the list of the cleaned rows of a candidate table, taken over the rows
  that are neither \<^verbatim>\<open>None\<close> nor empty, in order; so a row that is present and not
  empty is kept, whatever its cells are.
\<close>

theorem null_rows_dropped:
  "(\<not> truthy r \<longrightarrow> rows_loop (xs @ [r] @ ys) acc = rows_loop (xs @ ys) acc) \<and>
   (fst (extract_tables w self p) = Inr tables \<and> t \<in> set tables \<longrightarrow>
      (\<exists>pages pg raws raw.
         opened_for_extract w = Inr pages \<and> pg \<in> set pages \<and>
         page_tables pg = Inr (Some raws) \<and> raw \<in> set raws \<and>
         t = map clean_row (map the (filter truthy raw))))"
proof -
  have "\<exists>pages pg raws raw.
         opened_for_extract w = Inr pages \<and> pg \<in> set pages \<and>
         page_tables pg = Inr (Some raws) \<and> raw \<in> set raws \<and>
         t = map clean_row (map the (filter truthy raw))"
    if "fst (extract_tables w self p) = Inr tables" "t \<in> set tables"
    using extract_tables_mem [OF that] by (auto simp: comp_def)
  then show ?thesis using rows_loop_drops by blast
qed

theorem null_rows_dropped_witness:
  "rows_loop ([Some [Some '' Item '', None, Some ''Qty'']] @ [None] @
              [Some [], Some [Some ''A4 paper'', Some '' 2 '', None]]) [] =
   rows_loop ([Some [Some '' Item '', None, Some ''Qty'']] @
              [Some [], Some [Some ''A4 paper'', Some '' 2 '', None]]) [] \<and>
   fst (extract_tables digital_world fresh_extractor ''invoice.pdf'') =
     Inr [[[''Item'', [], ''Qty''], [''A4 paper'', ''2'', []]]] \<and>
   (\<exists>pages pg raws raw.
      opened_for_extract digital_world = Inr pages \<and> pg \<in> set pages \<and>
      page_tables pg = Inr (Some raws) \<and> raw \<in> set raws \<and>
      [[''Item'', [], ''Qty''], [''A4 paper'', ''2'', []]] =
        map clean_row (map the (filter truthy raw)))"
proof -
  have a: "\<not> truthy (None :: string option list option)" by simp
  have b: "fst (extract_tables digital_world fresh_extractor ''invoice.pdf'') =
             Inr [[[''Item'', [], ''Qty''], [''A4 paper'', ''2'', []]]] \<and>
           [[''Item'', [], ''Qty''], [''A4 paper'', ''2'', []]] \<in>
             set [[[''Item'', [], ''Qty''], [''A4 paper'', ''2'', []]]]"
    by (simp add: digital_world_tables)
  from null_rows_dropped [where r = None
      and xs = "[Some [Some '' Item '', None, Some ''Qty'']]"
      and ys = "[Some [], Some [Some ''A4 paper'', Some '' 2 '', None]]" and acc = "[]"
      and w = digital_world and self = fresh_extractor and p = "''invoice.pdf''"
      and tables = "[[[''Item'', [], ''Qty''], [''A4 paper'', ''2'', []]]]"
      and t = "[[''Item'', [], ''Qty''], [''A4 paper'', ''2'', []]]"] a b
  show ?thesis by blast
qed

text \<open>
  A row whose cells are all \<^verbatim>\<open>None\<close> is such a row: it is entirely null before
  cleaning, and it appears in the output, as a row of empty strings.
\<close>

theorem all_null_row_is_kept:
  "page_tables null_cells_page = Inr (Some [[Some [None, None]]]) \<and>
   opened_for_extract null_cells_world = Inr [null_cells_page] \<and>
   fst (extract_tables null_cells_world fresh_extractor ''invoice.pdf'') = Inr [[[[], []]]]"
proof -
  have d: "detect_pdf_type (Inr [null_cells_page]) ''invoice.pdf'' = (''digital'', [])"
    by (simp add: null_cells_page_def detect_pdf_type_def str_strip_invoice_text
          invoice_text_not_empty)
  have "fst (extract_tables_digital (Inr [null_cells_page])) = Inr [[[[], []]]]"
    by (simp add: extract_tables_digital_def null_cells_page_def clean_row_def Let_def)
  then have "fst (extract_tables null_cells_world fresh_extractor ''invoice.pdf'') =
               Inr [[[[], []]]]"
    by (cases "extract_tables_digital (Inr [null_cells_page])")
       (simp add: extract_tables_def extract_tables_try_def null_cells_world_def d Let_def)
  then show ?thesis by (simp add: null_cells_page_def null_cells_world_def)
qed

end
